theory Spec2Isabelle
  imports Main "HOL-Library.Sublist"
begin

section \<open>The complaint analysis pipeline of \<open>grievance_summarizer.py\<close>\<close>

text \<open>
  A shallow embedding of class \<open>GrievanceSummarizer\<close>. The data frame that the
  methods pass along is a list of rows; every random draw of \<open>np.random.choice\<close> and
  every optional \<open>transformers\<close> pipeline is a parameter of the model.

  A Python string is the list of its code points. The strings that enter the pipeline
  are those whose code points are below 256 (Latin-1): the character \<open>c\<close> stands for
  the code point \<open>of_char c\<close>, and the string operations below follow the Unicode
  character database on that range. Code points from 256 on come up only in the
  result of \<open>capitalize\<close>, which is therefore a list of numbers.
\<close>

subsection \<open>Python string operations\<close>

definition in_range :: "char \<Rightarrow> nat \<Rightarrow> nat \<Rightarrow> bool" where
  "in_range c lo hi \<longleftrightarrow> lo \<le> of_char c \<and> (of_char c :: nat) \<le> hi"

definition code_points :: "string \<Rightarrow> nat list" where
  "code_points s = map of_char s"

text \<open>The letters that \<open>lower\<close> changes: \<open>A\<close> to \<open>Z\<close>, and the Latin-1 capitals
  \<open>0xC0\<close> to \<open>0xDE\<close> without the multiplication sign \<open>0xD7\<close>. Each has its
  lower-case letter 32 code points above.\<close>

definition has_lowercase :: "char \<Rightarrow> bool" where
  "has_lowercase c \<longleftrightarrow> in_range c 65 90 \<or> in_range c 192 214 \<or> in_range c 216 222"

definition lower_char :: "char \<Rightarrow> char" where
  "lower_char c = (if has_lowercase c then char_of ((of_char c :: nat) + 32) else c)"

text \<open>\<open>s.lower()\<close>\<close>

definition lower :: "string \<Rightarrow> string" where
  "lower s = map lower_char s"

text \<open>\<open>str.isspace\<close>: tab, line feed, vertical tab, form feed, carriage return, the
  four separators \<open>0x1c\<close> to \<open>0x1f\<close>, the space, the next-line control \<open>0x85\<close>
  and the no-break space \<open>0xa0\<close>.\<close>

definition isspace :: "char \<Rightarrow> bool" where
  "isspace c \<longleftrightarrow> in_range c 9 13 \<or> in_range c 28 32
     \<or> (of_char c :: nat) = 133 \<or> (of_char c :: nat) = 160"

text \<open>\<open>s.strip()\<close>\<close>

definition strip :: "string \<Rightarrow> string" where
  "strip s = rev (dropWhile isspace (rev (dropWhile isspace s)))"

text \<open>\<open>str.isalpha\<close> on one character: the ASCII letters, the ordinal indicators
  \<open>0xaa\<close> and \<open>0xba\<close>, the micro sign \<open>0xb5\<close>, and the Latin-1 letters
  \<open>0xc0\<close> to \<open>0xff\<close> without the signs \<open>0xd7\<close> and \<open>0xf7\<close>.\<close>

definition isalpha_char :: "char \<Rightarrow> bool" where
  "isalpha_char c \<longleftrightarrow> in_range c 65 90 \<or> in_range c 97 122
     \<or> (of_char c :: nat) = 170 \<or> (of_char c :: nat) = 181 \<or> (of_char c :: nat) = 186
     \<or> in_range c 192 214 \<or> in_range c 216 246 \<or> in_range c 248 255"

text \<open>The characters for which one of \<open>isdecimal\<close>, \<open>isdigit\<close>, \<open>isnumeric\<close>
  holds: the ASCII digits, the superscripts \<open>0xb2\<close>, \<open>0xb3\<close>, \<open>0xb9\<close> and the
  fractions \<open>0xbc\<close> to \<open>0xbe\<close>.\<close>

definition isnumeric_char :: "char \<Rightarrow> bool" where
  "isnumeric_char c \<longleftrightarrow> in_range c 48 57
     \<or> (of_char c :: nat) = 178 \<or> (of_char c :: nat) = 179 \<or> (of_char c :: nat) = 185
     \<or> in_range c 188 190"

definition isalnum_char :: "char \<Rightarrow> bool" where
  "isalnum_char c \<longleftrightarrow> isalpha_char c \<or> isnumeric_char c"

text \<open>\<open>s.isalnum()\<close>: a non-empty string of alphanumeric characters.\<close>

definition isalnum :: "string \<Rightarrow> bool" where
  "isalnum s \<longleftrightarrow> s \<noteq> [] \<and> list_all isalnum_char s"

text \<open>
  The title-case form of a character, as code points: the upper-case letter 32 code
  points below for \<open>a\<close> to \<open>z\<close> and for the Latin-1 small letters \<open>0xe0\<close> to
  \<open>0xfe\<close> (without the division sign \<open>0xf7\<close>); \<open>U+039C\<close> for the micro sign,
  \<open>Ss\<close> for the sharp s and \<open>U+0178\<close> for \<open>0xff\<close>; the character itself otherwise.
\<close>

definition title_char :: "char \<Rightarrow> nat list" where
  "title_char c =
     (if in_range c 97 122 \<or> in_range c 224 246 \<or> in_range c 248 254
        then [(of_char c :: nat) - 32]
      else if (of_char c :: nat) = 181 then [924]
      else if (of_char c :: nat) = 223 then [83, 115]
      else if (of_char c :: nat) = 255 then [376]
      else [of_char c])"

text \<open>\<open>s.capitalize()\<close> (Python 3.8 and later): the first character in title case, the
  rest in lower case.\<close>

definition capitalize :: "string \<Rightarrow> nat list" where
  "capitalize s = (case s of [] \<Rightarrow> [] | c # cs \<Rightarrow> title_char c @ code_points (lower cs))"

text \<open>\<open>w in s\<close> on strings: \<open>w\<close> occurs in \<open>s\<close> as a contiguous substring.\<close>

fun contains :: "string \<Rightarrow> string \<Rightarrow> bool" where
  "contains w [] \<longleftrightarrow> w = []"
| "contains w (c # cs) \<longleftrightarrow> prefix w (c # cs) \<or> contains w cs"

text \<open>\<open>' '.join(xs)\<close>\<close>

fun join_space :: "string list \<Rightarrow> string" where
  "join_space [] = []"
| "join_space [x] = x"
| "join_space (x # y # ys) = x @ '' '' @ join_space (y # ys)"

text \<open>\<open>str(n)\<close> for a non-negative integer: its decimal digits.\<close>

definition digit_char :: "nat \<Rightarrow> char" where
  "digit_char d = char_of (48 + d)"

function str_nat :: "nat \<Rightarrow> string" where
  "str_nat n = (if n < 10 then [digit_char n] else str_nat (n div 10) @ [digit_char (n mod 10)])"
  by pat_completeness auto
termination
  by (relation "measure (\<lambda>n. n)") auto

subsection \<open>Categories and \<open>classify_text\<close>\<close>

text \<open>\<open>self.categories = ['Hostel', 'Mess', 'Academics', 'Administration']\<close>\<close>

datatype category = Hostel | Mess | Academics | Administration

definition hostel_words :: "string list" where
  "hostel_words = [''hostel'', ''room'', ''fan'', ''water'', ''washroom'', ''leak'', ''roommate'']"

definition mess_words :: "string list" where
  "mess_words = [''mess'', ''food'', ''chicken'', ''quality'']"

definition academics_words :: "string list" where
  "academics_words = [''grade'', ''course'', ''portal'', ''registration'']"

definition administration_words :: "string list" where
  "administration_words = [''staff'', ''administration'', ''office'', ''fees'']"

text \<open>\<open>any(word in text for word in words)\<close>\<close>

definition any_in :: "string list \<Rightarrow> string \<Rightarrow> bool" where
  "any_in ws text = list_ex (\<lambda>word. contains word text) ws"

text \<open>
  The inner function \<open>classify_text\<close> of \<open>classify_complaints\<close>. Its last branch returns
  \<open>np.random.choice(self.categories, p=[0.35, 0.35, 0.15, 0.15])\<close>; the outcome of
  that draw is the parameter \<open>choice\<close>.
\<close>

definition classify_text :: "category \<Rightarrow> string \<Rightarrow> category" where
  "classify_text choice text =
     (let text_lower = lower text in
      if any_in hostel_words text_lower then Hostel
      else if any_in mess_words text_lower then Mess
      else if any_in academics_words text_lower then Academics
      else if any_in administration_words text_lower then Administration
      else choice)"

subsection \<open>Raw records and the data frame\<close>

text \<open>
  A raw record is a Python dict from column names to values. A value is a string or a
  missing value, one that \<open>pd.isna\<close> accepts. The model has the one missing value
  \<open>NA\<close>: it does not tell \<open>None\<close> from \<open>NaN\<close>, and values that are neither
  strings nor missing are left out.
\<close>

datatype cell = NA | Str string

type_synonym raw_record = "(string \<times> cell) list"

text \<open>A record that lacks a column of the frame holds \<open>NaN\<close> there.\<close>

definition cell_of :: "raw_record \<Rightarrow> string \<Rightarrow> cell" where
  "cell_of r name = (case map_of r name of None \<Rightarrow> NA | Some v \<Rightarrow> v)"

record dataframe =
  columns :: "string list"
  rows :: "raw_record list"

text \<open>Keeps the first element for every key, in the order of the input; \<open>seen\<close> holds
  the keys met so far.\<close>

fun keep_first :: "('a \<Rightarrow> 'k) \<Rightarrow> 'k list \<Rightarrow> 'a list \<Rightarrow> 'a list" where
  "keep_first key seen [] = []"
| "keep_first key seen (x # xs) =
     (if key x \<in> set seen then keep_first key seen xs
      else x # keep_first key (key x # seen) xs)"

text \<open>\<open>pd.DataFrame(data)\<close> for a list of dicts: the columns are the keys of the
  records, in the order of their first appearance.\<close>

definition DataFrame :: "raw_record list \<Rightarrow> dataframe" where
  "DataFrame data =
     \<lparr>columns = keep_first (\<lambda>k. k) [] (concat (map (map fst) data)), rows = data\<rparr>"

datatype exn = ValueError | KeyError

subsection \<open>\<open>clean_data\<close>\<close>

record cleaned =
  raw :: raw_record
  clean_text :: string

text \<open>The inner function \<open>clean_text\<close> of \<open>clean_data\<close>.\<close>

definition clean_text_of :: "cell \<Rightarrow> string" where
  "clean_text_of text = (case text of NA \<Rightarrow> [] | Str s \<Rightarrow> strip (lower s))"

text \<open>\<open>df.drop_duplicates(subset=['raw_text'])\<close>, with the default \<open>keep='first'\<close>.\<close>

definition drop_duplicates :: "raw_record list \<Rightarrow> raw_record list" where
  "drop_duplicates rs = keep_first (\<lambda>r. cell_of r ''raw_text'') [] rs"

text \<open>On a frame without the column \<open>raw_text\<close>, pandas raises \<open>KeyError\<close>.\<close>

definition clean_data :: "dataframe \<Rightarrow> exn + cleaned list" where
  "clean_data df =
     (if ''raw_text'' \<notin> set (columns df) then Inl KeyError
      else Inr (map (\<lambda>r. \<lparr>raw = r, clean_text = clean_text_of (cell_of r ''raw_text'')\<rparr>)
                    (drop_duplicates (rows df))))"

subsection \<open>\<open>classify_complaints\<close>\<close>

record classified = cleaned +
  category :: category

text \<open>\<open>draw i\<close> is the outcome of the random choice made for the row at position
  \<open>i\<close>, when that row reaches the last branch of \<open>classify_text\<close>.\<close>

definition classify_complaints :: "(nat \<Rightarrow> category) \<Rightarrow> cleaned list \<Rightarrow> classified list" where
  "classify_complaints draw df =
     map (\<lambda>(i, r). \<lparr>raw = raw r, clean_text = clean_text r,
                    category = classify_text (draw i) (clean_text r)\<rparr>)
         (enumerate 0 df)"

subsection \<open>\<open>analyze_sentiment\<close>\<close>

datatype sentiment_label = Negative | Neutral | Positive

datatype urgency_label = High | Medium | Low

definition sentiment_name :: "sentiment_label \<Rightarrow> nat list" where
  "sentiment_name s = code_points (case s of Negative \<Rightarrow> ''Negative'' | Neutral \<Rightarrow> ''Neutral''
                                   | Positive \<Rightarrow> ''Positive'')"

record analyzed = classified +
  sentiment :: "nat list"
  urgency :: urgency_label

text \<open>
  The optional collaborators: \<open>None\<close> when the \<open>transformers\<close> pipeline could not be
  loaded (the getter then returns \<open>False\<close>). A loaded pipeline maps a text to its
  answer, or to \<open>None\<close> when the call raises.
\<close>

record environment =
  sentiment_pipeline :: "(string \<Rightarrow> string option) option"
  summarizer_pipeline :: "(string \<Rightarrow> string option) option"

text \<open>The outcomes of the calls of \<open>np.random.choice\<close>, by row position.\<close>

record random_draws =
  category_choice :: "nat \<Rightarrow> category"
  sentiment_choice :: "nat \<Rightarrow> sentiment_label"
  urgency_choice :: "nat \<Rightarrow> urgency_label"

text \<open>The inner function \<open>get_sentiment\<close>.\<close>

definition get_sentiment :: "(string \<Rightarrow> string option) \<Rightarrow> string \<Rightarrow> nat list" where
  "get_sentiment pipeline text =
     (if text = [] then code_points ''Neutral''
      else case pipeline (take 250 text) of
             None \<Rightarrow> code_points ''Neutral''
           | Some label \<Rightarrow> capitalize label)"

definition analyze_sentiment ::
  "environment \<Rightarrow> random_draws \<Rightarrow> classified list \<Rightarrow> analyzed list" where
  "analyze_sentiment env rnd df =
     (let sentiments =
            (case sentiment_pipeline env of
               Some pipeline \<Rightarrow> map (\<lambda>r. get_sentiment pipeline (clean_text r)) df
             | None \<Rightarrow> map (\<lambda>i. sentiment_name (sentiment_choice rnd i)) [0..<length df]);
          urgencies = map (urgency_choice rnd) [0..<length df]
      in map (\<lambda>(r, s, u). \<lparr>raw = raw r, clean_text = clean_text r,
                            category = category r, sentiment = s, urgency = u\<rparr>)
             (zip df (zip sentiments urgencies)))"

subsection \<open>\<open>extract_trends\<close>\<close>

definition stopwords :: "string list" where
  "stopwords =
    [''i'', ''me'', ''my'', ''myself'', ''we'', ''our'', ''ours'', ''ourselves'', ''you'', ''your'',
     ''yours'', ''yourself'', ''yourselves'', ''he'', ''him'', ''his'', ''himself'', ''she'',
     ''her'', ''hers'', ''herself'', ''it'', ''its'', ''itself'', ''they'', ''them'', ''their'',
     ''theirs'', ''themselves'', ''what'', ''which'', ''who'', ''whom'', ''this'', ''that'',
     ''these'', ''those'', ''am'', ''is'', ''are'', ''was'', ''were'', ''be'', ''been'', ''being'',
     ''have'', ''has'', ''had'', ''having'', ''do'', ''does'', ''did'', ''doing'', ''a'', ''an'',
     ''the'', ''and'', ''but'', ''if'', ''or'', ''because'', ''as'', ''until'', ''while'', ''of'',
     ''at'', ''by'', ''for'', ''with'', ''through'', ''during'', ''before'', ''after'', ''above'',
     ''below'', ''up'', ''down'', ''in'', ''out'', ''on'', ''off'', ''over'', ''under'', ''again'',
     ''further'', ''then'', ''once'', ''to'']"

text \<open>The class \<open>\w\<close> of a Unicode pattern: the alphanumeric characters and the
  underscore.\<close>

definition is_word_char :: "char \<Rightarrow> bool" where
  "is_word_char c \<longleftrightarrow> isalnum_char c \<or> c = CHR ''_''"

text \<open>\<open>re.findall(r'\b\w+\b', s)\<close>: the maximal runs of word characters of \<open>s\<close>, from
  left to right; \<open>cur\<close> is the run being read.\<close>

fun findall_words :: "string \<Rightarrow> string \<Rightarrow> string list" where
  "findall_words cur [] = (if cur = [] then [] else [cur])"
| "findall_words cur (c # cs) =
     (if is_word_char c then findall_words (cur @ [c]) cs
      else if cur = [] then findall_words [] cs
      else cur # findall_words [] cs)"

definition tokenize :: "string \<Rightarrow> string list" where
  "tokenize text = findall_words [] (lower text)"

text \<open>
  \<open>Counter(xs)\<close>: a dict in insertion order. Counting an element that is a key adds one
  to its count in place; a new element is appended with count 1.
\<close>

fun bump :: "'a \<Rightarrow> ('a \<times> nat) list \<Rightarrow> ('a \<times> nat) list" where
  "bump w [] = [(w, 1)]"
| "bump w ((k, c) # kcs) = (if k = w then (k, Suc c) # kcs else (k, c) # bump w kcs)"

definition Counter :: "'a list \<Rightarrow> ('a \<times> nat) list" where
  "Counter xs = foldl (\<lambda>acc w. bump w acc) [] xs"

text \<open>
  \<open>most_common(n)\<close> is \<open>heapq.nlargest(n, items, key=count)\<close>, which the library
  documents as \<open>sorted(items, key=count, reverse=True)[:n]\<close>: a stable sort by
  descending count, so that equal counts stay in insertion order.
\<close>

definition most_common :: "nat \<Rightarrow> ('a \<times> nat) list \<Rightarrow> ('a \<times> nat) list" where
  "most_common n items = take n (sort_key (\<lambda>(w, c). - int c) items)"

definition filtered_words :: "string list \<Rightarrow> string list" where
  "filtered_words texts =
     filter (\<lambda>w. isalnum w \<and> w \<notin> set stopwords \<and> length w > 2)
            (tokenize (join_space texts))"

definition top_words :: "string list \<Rightarrow> (string \<times> nat) list" where
  "top_words texts = most_common 3 (Counter (filtered_words texts))"

text \<open>\<open>f'Frequent topic: "{word.capitalize()}" (mentioned {count} times)'\<close>\<close>

definition recurring_issue :: "string \<times> nat \<Rightarrow> nat list" where
  "recurring_issue wc =
     code_points ''Frequent topic: '' @ [34] @ capitalize (fst wc) @ [34]
       @ code_points ('' (mentioned '' @ str_nat (snd wc) @ '' times)'')"

text \<open>\<open>Series.value_counts()\<close>: the distinct values with their counts, by descending
  count. No value of the three label columns is missing, so none is dropped.\<close>

definition value_counts :: "'a list \<Rightarrow> ('a \<times> nat) list" where
  "value_counts xs = sort_key (\<lambda>(k, c). - int c) (Counter xs)"

definition category_name :: "category \<Rightarrow> string" where
  "category_name c = (case c of Hostel \<Rightarrow> ''Hostel'' | Mess \<Rightarrow> ''Mess''
                      | Academics \<Rightarrow> ''Academics'' | Administration \<Rightarrow> ''Administration'')"

definition top_category :: "('a classified_scheme) list \<Rightarrow> string" where
  "top_category df = (case value_counts (map category df) of
                        [] \<Rightarrow> ''general''
                      | (c, n) # _ \<Rightarrow> category_name c)"

definition generate_fallback_summary :: "('a classified_scheme) list \<Rightarrow> string" where
  "generate_fallback_summary df =
     ''Analysis of '' @ str_nat (length df) @ '' complaints shows primary concerns in ''
       @ lower (top_category df) @ '' ''
       @ ''category. Key issues include maintenance, quality control, and service delivery. ''
       @ ''Immediate attention required for high-priority complaints.''"

record trends =
  recurring_issues :: "nat list list"
  summary :: string

definition extract_trends :: "environment \<Rightarrow> analyzed list \<Rightarrow> trends" where
  "extract_trends env df =
     (let recurring = map recurring_issue (top_words (map clean_text df));
          combined_text = join_space (map clean_text df);
          s = (case summarizer_pipeline env of
                 Some summarizer \<Rightarrow>
                   (if length combined_text > 50
                    then (case summarizer (take 2000 combined_text) of
                            Some text \<Rightarrow> text
                          | None \<Rightarrow> generate_fallback_summary df)
                    else generate_fallback_summary df)
               | None \<Rightarrow> generate_fallback_summary df)
      in \<lparr>recurring_issues = recurring, summary = s\<rparr>)"

subsection \<open>\<open>process_complaints\<close>\<close>

record dashboard =
  total_complaints :: nat
  complaint_volume_by_category :: "(category \<times> nat) list"
  sentiment_overview :: "(nat list \<times> nat) list"
  urgency_distribution :: "(urgency_label \<times> nat) list"
  weekly_summary :: string
  top_recurring_issues :: "nat list list"
  processed_complaints :: "analyzed list"

text \<open>
  The body of the \<open>try\<close> block, for a call without \<open>file_path\<close> (as every call in
  \<open>app.py\<close> is): \<open>data\<close> is \<open>None\<close> when the argument is not given. A value
  \<open>Inl e\<close> is the exception that leaves the block.
\<close>

definition process_complaints_try ::
  "environment \<Rightarrow> random_draws \<Rightarrow> raw_record list option \<Rightarrow> exn + dashboard" where
  "process_complaints_try env rnd data =
     (case data of
        None \<Rightarrow> Inl ValueError
      | Some [] \<Rightarrow> Inl ValueError
      | Some (r # rs) \<Rightarrow>
          (case clean_data (DataFrame (r # rs)) of
             Inl e \<Rightarrow> Inl e
           | Inr df1 \<Rightarrow>
               (let df2 = classify_complaints (category_choice rnd) df1;
                    df3 = analyze_sentiment env rnd df2;
                    trends = extract_trends env df3
                in Inr \<lparr>total_complaints = length df3,
                        complaint_volume_by_category = value_counts (map category df3),
                        sentiment_overview = value_counts (map sentiment df3),
                        urgency_distribution = value_counts (map urgency df3),
                        weekly_summary = summary trends,
                        top_recurring_issues = recurring_issues trends,
                        processed_complaints = df3\<rparr>)))"

text \<open>\<open>except Exception\<close> logs the error and returns \<open>None\<close>.\<close>

definition process_complaints ::
  "environment \<Rightarrow> random_draws \<Rightarrow> raw_record list option \<Rightarrow> dashboard option" where
  "process_complaints env rnd data =
     (case process_complaints_try env rnd data of
        Inl e \<Rightarrow> None
      | Inr d \<Rightarrow> Some d)"

subsection \<open>Example inputs\<close>

text \<open>No \<open>transformers\<close> pipeline can be loaded: both getters return \<open>False\<close>.\<close>

definition no_collaborators :: environment where
  "no_collaborators = \<lparr>sentiment_pipeline = None, summarizer_pipeline = None\<rparr>"

text \<open>Random draws that give the same outcome at every row.\<close>

definition constant_draws :: "category \<Rightarrow> sentiment_label \<Rightarrow> urgency_label \<Rightarrow> random_draws" where
  "constant_draws c s u =
     \<lparr>category_choice = (\<lambda>i. c), sentiment_choice = (\<lambda>i. s), urgency_choice = (\<lambda>i. u)\<rparr>"

definition example_batch :: "raw_record list" where
  "example_batch =
     [[(''raw_text'', Str ''Bad food'')],
      [(''raw_text'', Str ''Fan broken'')],
      [(''raw_text'', Str ''Bad food'')]]"

text \<open>The record has the key \<open>raw_text\<close>.\<close>

definition has_raw_text :: "raw_record \<Rightarrow> bool" where
  "has_raw_text r \<longleftrightarrow> ''raw_text'' \<in> set (map fst r)"

text \<open>A frame with a duplicated text, which begins with a no-break space and ends with a
  next-line control, and two records without the key \<open>raw_text\<close>.\<close>

definition example_frame :: dataframe where
  "example_frame = DataFrame
     [[(''raw_text'', Str ([CHR 0xA0] @ '' Fan BROKEN '' @ [CHR 0x85])), (''id'', Str ''1'')],
      [(''id'', Str ''2'')],
      [(''raw_text'', Str ([CHR 0xA0] @ '' Fan BROKEN '' @ [CHR 0x85])), (''id'', Str ''3'')],
      [(''id'', Str ''4'')]]"


text \<open>Two processed rows, and an environment whose summarization pipeline is loaded.\<close>

definition example_rows :: "analyzed list" where
  "example_rows =
     [\<lparr>raw = [(''raw_text'', Str ''Water leak water leak'')],
       clean_text = ''water leak water leak'', category = Hostel,
       sentiment = code_points ''Negative'', urgency = High\<rparr>,
      \<lparr>raw = [(''raw_text'', Str (''Leak caf'' @ [CHR 0xE9] @ '' AC a_b the fan''))],
       clean_text = ''leak caf'' @ [CHR 0xE9] @ '' ac a_b the fan'', category = Hostel,
       sentiment = code_points ''Negative'', urgency = Low\<rparr>]"


definition summarizer_available :: environment where
  "summarizer_available =
     \<lparr>sentiment_pipeline = None,
      summarizer_pipeline = Some (\<lambda>text. Some ''Summary written by the model.'')\<rparr>"

subsection \<open>Notions used in the statements\<close>

text \<open>The position of the first occurrence of \<open>x\<close> in \<open>xs\<close>.\<close>

definition first_index :: "'a list \<Rightarrow> 'a \<Rightarrow> nat" where
  "first_index xs x = length (takeWhile (\<lambda>y. y \<noteq> x) xs)"

text \<open>\<open>a\<close> ranks before \<open>b\<close>: it occurs more often in \<open>xs\<close>, or as often and
  first.\<close>

definition ranks_before :: "'a list \<Rightarrow> 'a \<Rightarrow> 'a \<Rightarrow> bool" where
  "ranks_before xs a b \<longleftrightarrow>
     count_list xs b < count_list xs a
     \<or> (count_list xs a = count_list xs b \<and> first_index xs a < first_index xs b)"

text \<open>The number that a string of decimal digits denotes.\<close>

definition decimal_value :: "string \<Rightarrow> nat" where
  "decimal_value s = foldl (\<lambda>a d. 10 * a + ((of_char d :: nat) - 48)) 0 s"

section \<open>Properties\<close>

subsection \<open>Auxiliary facts\<close>

lemma contains_sublist: "contains w s \<longleftrightarrow> sublist w s"
  by (induction s) (auto simp: sublist_Cons_right)

lemma set_keep_first_id: "set (keep_first (\<lambda>k. k) seen xs) = set xs - set seen"
  by (induction xs arbitrary: seen) auto

lemma columns_DataFrame: "set (columns (DataFrame data)) = (\<Union>r \<in> set data. set (map fst r))"
  by (simp add: DataFrame_def set_keep_first_id)

lemma rows_DataFrame [simp]: "rows (DataFrame data) = data"
  by (simp add: DataFrame_def)

lemma raw_text_column_iff:
  "''raw_text'' \<in> set (columns (DataFrame data)) \<longleftrightarrow> list_ex has_raw_text data"
  by (simp add: columns_DataFrame has_raw_text_def list_ex_iff)

lemma length_classify_complaints [simp]: "length (classify_complaints draw df) = length df"
  by (simp add: classify_complaints_def)

lemma map_clean_text_classify [simp]:
  "map clean_text (classify_complaints draw df) = map clean_text df"
proof -
  have "map clean_text (classify_complaints draw df) = map (clean_text \<circ> snd) (enumerate 0 df)"
    by (simp add: classify_complaints_def case_prod_unfold comp_def)
  also have "\<dots> = map clean_text df"
    by (simp add: map_snd_enumerate flip: map_map)
  finally show ?thesis .
qed

lemma analyze_sentiment_zip:
  "analyze_sentiment env rnd df =
     map (\<lambda>(r, s, u). \<lparr>raw = raw r, clean_text = clean_text r,
                            category = category r, sentiment = s, urgency = u\<rparr>)
         (zip df (zip (case sentiment_pipeline env of
               Some pipeline \<Rightarrow> map (\<lambda>r. get_sentiment pipeline (clean_text r)) df
             | None \<Rightarrow> map (\<lambda>i. sentiment_name (sentiment_choice rnd i)) [0..<length df])
            (map (urgency_choice rnd) [0..<length df])))"
  by (simp add: analyze_sentiment_def Let_def)

lemma length_sentiments:
  "length (case sentiment_pipeline env of
               Some pipeline \<Rightarrow> map (\<lambda>r. get_sentiment pipeline (clean_text r)) df
             | None \<Rightarrow> map (\<lambda>i. sentiment_name (sentiment_choice rnd i)) [0..<length df]) = length df"
  by (simp split: option.split)

lemma length_analyze_sentiment [simp]: "length (analyze_sentiment env rnd df) = length df"
  by (simp add: analyze_sentiment_zip length_sentiments)

lemma map_clean_text_analyze [simp]:
  "map clean_text (analyze_sentiment env rnd df) = map clean_text df"
  by (rule nth_equalityI) (simp_all add: analyze_sentiment_zip length_sentiments)

lemma map_category_analyze [simp]:
  "map category (analyze_sentiment env rnd df) = map category df"
  by (rule nth_equalityI) (simp_all add: analyze_sentiment_zip length_sentiments)

lemma map_urgency_analyze:
  "map urgency (analyze_sentiment env rnd df) = map (urgency_choice rnd) [0..<length df]"
  by (rule nth_equalityI) (simp_all add: analyze_sentiment_zip length_sentiments)

lemma map_sentiment_analyze:
  "map sentiment (analyze_sentiment env rnd df) =
     (case sentiment_pipeline env of
               Some pipeline \<Rightarrow> map (\<lambda>r. get_sentiment pipeline (clean_text r)) df
             | None \<Rightarrow> map (\<lambda>i. sentiment_name (sentiment_choice rnd i)) [0..<length df])"
  by (rule nth_equalityI) (simp_all add: analyze_sentiment_zip length_sentiments)


lemma sum_counts_bump: "sum_list (map snd (bump w acc)) = Suc (sum_list (map snd acc))"
  by (induction acc) auto

lemma sum_counts_foldl_bump:
  "sum_list (map snd (foldl (\<lambda>acc w. bump w acc) acc xs)) = sum_list (map snd acc) + length xs"
  by (induction xs arbitrary: acc) (simp_all add: sum_counts_bump)

lemma sum_counts_Counter: "sum_list (map snd (Counter xs)) = length xs"
  by (simp add: Counter_def sum_counts_foldl_bump)

lemma sum_list_insort_key:
  "sum_list (map g (insort_key f x xs)) = (g x :: nat) + sum_list (map g xs)"
  by (induction xs) simp_all

lemma sum_list_sort_key: "sum_list (map g (sort_key f xs)) = (sum_list (map g xs) :: nat)"
  by (induction xs) (simp_all add: sum_list_insort_key)

lemma sum_value_counts: "sum_list (map snd (value_counts xs)) = length xs"
  by (simp add: value_counts_def sum_list_sort_key sum_counts_Counter)

lemma process_complaints_try_Some:
  "process_complaints_try env rnd (Some rs) =
     (if rs = [] \<or> \<not> list_ex has_raw_text rs then
        (if rs = [] then Inl ValueError else Inl KeyError)
      else
        (let df1 = map (\<lambda>r. \<lparr>raw = r, clean_text = clean_text_of (cell_of r ''raw_text'')\<rparr>)
                    (drop_duplicates rs);
             df2 = classify_complaints (category_choice rnd) df1;
             df3 = analyze_sentiment env rnd df2;
             trends = extract_trends env df3
                in Inr \<lparr>total_complaints = length df3,
                        complaint_volume_by_category = value_counts (map category df3),
                        sentiment_overview = value_counts (map sentiment df3),
                        urgency_distribution = value_counts (map urgency df3),
                        weekly_summary = summary trends,
                        top_recurring_issues = recurring_issues trends,
                        processed_complaints = df3\<rparr>))"
proof (cases rs)
  case Nil
  then show ?thesis by (simp add: process_complaints_try_def)
next
  case (Cons r rs')
  then show ?thesis
    using raw_text_column_iff [of rs]
    by (simp add: process_complaints_try_def clean_data_def)
qed

lemma process_complaints_None_iff:
  "process_complaints env rnd (Some rs) = None \<longleftrightarrow> \<not> list_ex has_raw_text rs"
  by (auto simp: process_complaints_def process_complaints_try_Some Let_def)

lemma sentiment_overview_fallback:
  assumes "list_ex has_raw_text rs" and "sentiment_pipeline env = None"
  shows "map_option sentiment_overview (process_complaints env rnd (Some rs))
           = Some (value_counts (map (\<lambda>i. sentiment_name (sentiment_choice rnd i))
                                     [0..<length (drop_duplicates rs)]))"
proof -
  from assms(1) have "rs \<noteq> []" by auto
  with assms show ?thesis
    by (simp add: process_complaints_def process_complaints_try_Some Let_def
        map_sentiment_analyze)
qed

lemma subseq_keep_first: "subseq (keep_first key seen xs) xs"
  by (induction xs arbitrary: seen) auto

lemma keys_keep_first:
  "set (map key (keep_first key seen xs)) = key ` set xs - set seen"
  by (induction xs arbitrary: seen) auto

lemma distinct_keep_first: "distinct (map key (keep_first key seen xs))"
  by (induction xs arbitrary: seen) (auto simp: keys_keep_first simp flip: set_map)

lemma find_keep_first:
  "find (\<lambda>x. key x = k) (keep_first key seen xs)
     = (if k \<in> set seen then None else find (\<lambda>x. key x = k) xs)"
proof (induction xs arbitrary: seen)
  case Nil
  then show ?case by simp
next
  case (Cons x xs)
  then show ?case by (cases "key x = k") auto
qed

lemma Counter_snoc: "Counter (xs @ [x]) = bump x (Counter xs)"
  by (simp add: Counter_def)

lemma keys_bump:
  "map fst (bump w acc) = (if w \<in> set (map fst acc) then map fst acc else map fst acc @ [w])"
  by (induction acc) force+

lemma map_of_bump:
  "map_of (bump w acc) k =
     (if k = w then Some (case map_of acc w of None \<Rightarrow> 1 | Some c \<Rightarrow> Suc c)
      else map_of acc k)"
  by (induction acc) auto

lemma keys_Counter: "set (map fst (Counter xs)) = set xs"
  by (induction xs rule: rev_induct) (auto simp: Counter_def Counter_snoc keys_bump simp flip: set_map)

lemma distinct_Counter: "distinct (map fst (Counter xs))"
  by (induction xs rule: rev_induct) (auto simp: Counter_def Counter_snoc keys_bump keys_Counter simp flip: set_map)

lemma map_of_Counter:
  "map_of (Counter xs) k = (if k \<in> set xs then Some (count_list xs k) else None)"
proof (induction xs rule: rev_induct)
  case Nil
  then show ?case by (simp add: Counter_def)
next
  case (snoc x xs)
  then show ?case
    by (auto simp: Counter_snoc map_of_bump)
qed

lemma Counter_count: "(k, c) \<in> set (Counter xs) \<Longrightarrow> k \<in> set xs \<and> c = count_list xs k"
  using map_of_Counter [of xs k] distinct_Counter [of xs]
  by (auto split: if_splits dest: map_of_is_SomeI [rotated] simp: map_of_eq_Some_iff)

lemma first_index_snoc_mem: "k \<in> set xs \<Longrightarrow> first_index (xs @ [x]) k = first_index xs k"
  by (induction xs) (auto simp: first_index_def)

lemma first_index_lt: "k \<in> set xs \<Longrightarrow> first_index xs k < length xs"
  by (induction xs) (auto simp: first_index_def)

lemma first_index_snoc_new: "x \<notin> set xs \<Longrightarrow> first_index (xs @ [x]) x = length xs"
  by (induction xs) (auto simp: first_index_def)

lemma Counter_first_seen_order:
  "sorted_wrt (\<lambda>a b. first_index xs a < first_index xs b) (map fst (Counter xs))"
proof (induction xs rule: rev_induct)
  case Nil
  then show ?case by (simp add: Counter_def)
next
  case (snoc x xs)
  have old: "sorted_wrt (\<lambda>a b. first_index (xs @ [x]) a < first_index (xs @ [x]) b)
               (map fst (Counter xs))"
    using snoc keys_Counter [of xs]
    by (auto intro!: sorted_wrt_mono_rel [rotated, OF snoc] simp: first_index_snoc_mem)
  show ?case
  proof (cases "x \<in> set xs")
    case True
    then show ?thesis
      using old keys_Counter [of xs] by (simp add: Counter_snoc keys_bump)
  next
    case False
    then show ?thesis
      using old keys_Counter [of xs] first_index_lt [of _ xs]
      by (auto simp: Counter_snoc keys_bump sorted_wrt_append first_index_snoc_mem
          first_index_snoc_new)
  qed
qed


lemma insort_key_rank:
  fixes f :: "'a \<Rightarrow> int" and g :: "'a \<Rightarrow> nat"
  assumes "sorted_wrt (\<lambda>a b. f a < f b \<or> (f a = f b \<and> g a < g b)) ys"
    and "\<forall>z \<in> set ys. g x < g z"
  shows "sorted_wrt (\<lambda>a b. f a < f b \<or> (f a = f b \<and> g a < g b)) (insort_key f x ys)"
  using assms
proof (induction ys)
  case Nil
  then show ?case by simp
next
  case (Cons y ys)
  show ?case
  proof (cases "f x \<le> f y")
    case True
    have "f x < f z \<or> (f x = f z \<and> g x < g z)" if "z \<in> set (y # ys)" for z
    proof -
      have "f y \<le> f z" using Cons.prems(1) that by auto
      with True have "f x \<le> f z" by simp
      moreover have "g x < g z" using Cons.prems(2) that by auto
      ultimately show ?thesis by auto
    qed
    with True Cons.prems(1) show ?thesis by simp
  next
    case False
    then have "sorted_wrt (\<lambda>a b. f a < f b \<or> (f a = f b \<and> g a < g b)) (insort_key f x ys)"
      using Cons by simp
    with False Cons.prems(1) show ?thesis
      by (auto simp: set_insort_key)
  qed
qed

lemma sort_key_rank:
  fixes f :: "'a \<Rightarrow> int" and g :: "'a \<Rightarrow> nat"
  assumes "sorted_wrt (\<lambda>a b. g a < g b) xs"
  shows "sorted_wrt (\<lambda>a b. f a < f b \<or> (f a = f b \<and> g a < g b)) (sort_key f xs)"
  using assms
proof (induction xs)
  case Nil
  then show ?case by simp
next
  case (Cons x xs)
  then show ?case
    by (simp add: insort_key_rank)
qed

lemma sorted_Counter_ranked:
  "sorted_wrt (ranks_before xs) (map fst (sort_key (\<lambda>(w, c). - int c) (Counter xs)))"
proof -
  let ?f = "\<lambda>(w :: 'a, c :: nat). - int c"
  let ?g = "\<lambda>p :: 'a \<times> nat. first_index xs (fst p)"
  have "sorted_wrt (\<lambda>a b. ?g a < ?g b) (Counter xs)"
    using Counter_first_seen_order [of xs] by (simp add: sorted_wrt_map)
  then have "sorted_wrt (\<lambda>a b. ?f a < ?f b \<or> (?f a = ?f b \<and> ?g a < ?g b))
               (sort_key ?f (Counter xs))"
    by (rule sort_key_rank)
  then have "sorted_wrt (\<lambda>a b. ranks_before xs (fst a) (fst b)) (sort_key ?f (Counter xs))"
  proof (rule sorted_wrt_mono_rel [rotated])
    fix a b
    assume a: "a \<in> set (sort_key ?f (Counter xs))" and b: "b \<in> set (sort_key ?f (Counter xs))"
      and r: "?f a < ?f b \<or> (?f a = ?f b \<and> ?g a < ?g b)"
    from a have "snd a = count_list xs (fst a)"
      using Counter_count [of "fst a" "snd a" xs] by simp
    moreover from b have "snd b = count_list xs (fst b)"
      using Counter_count [of "fst b" "snd b" xs] by simp
    ultimately show "ranks_before xs (fst a) (fst b)"
      using r by (auto simp: ranks_before_def case_prod_unfold)
  qed
  then show ?thesis by (simp add: sorted_wrt_map)
qed

lemma sorted_wrt_take_drop:
  assumes "sorted_wrt R xs"
  shows "sorted_wrt R (take n xs) \<and> (\<forall>a \<in> set (take n xs). \<forall>b \<in> set (drop n xs). R a b)"
proof -
  from assms have "sorted_wrt R (take n xs @ drop n xs)" by simp
  then show ?thesis unfolding sorted_wrt_append by blast
qed

lemma most_common_ranked:
  "sorted_wrt (ranks_before xs) (map fst (most_common n (Counter xs)))"
  using sorted_wrt_take_drop [OF sorted_Counter_ranked [of xs], where n = n]
  by (simp add: most_common_def take_map)

lemma most_common_rest:
  assumes "w \<in> set xs" and "w \<notin> set (map fst (most_common n (Counter xs)))"
    and "v \<in> set (map fst (most_common n (Counter xs)))"
  shows "ranks_before xs v w"
proof -
  let ?L = "map fst (sort_key (\<lambda>(w, c). - int c) (Counter xs))"
  have mc: "map fst (most_common n (Counter xs)) = take n ?L"
    by (simp add: most_common_def take_map)
  have "w \<in> set ?L"
    using assms(1) keys_Counter [of xs] by simp
  then have "w \<in> set (take n ?L) \<or> w \<in> set (drop n ?L)"
    by (metis Un_iff append_take_drop_id set_append)
  with assms(2) have "w \<in> set (drop n ?L)"
    by (simp only: mc) blast
  moreover from assms(3) have "v \<in> set (take n ?L)"
    by (simp only: mc)
  ultimately show ?thesis
    using sorted_wrt_take_drop [OF sorted_Counter_ranked [of xs], where n = n] by blast
qed

lemma most_common_count:
  assumes "(w, c) \<in> set (most_common n (Counter xs))"
  shows "w \<in> set xs \<and> c = count_list xs w"
proof -
  from assms have "(w, c) \<in> set (Counter xs)"
    by (auto simp: most_common_def dest: in_set_takeD)
  then show ?thesis by (rule Counter_count)
qed

lemma length_Counter: "length (Counter xs) = card (set xs)"
  using distinct_card [OF distinct_Counter, of xs] keys_Counter [of xs] by simp

lemma length_most_common: "length (most_common n (Counter xs)) = min n (card (set xs))"
  by (simp add: most_common_def length_Counter min.commute)

lemma recurring_issues_eq:
  "recurring_issues (extract_trends env df) = map recurring_issue (top_words (map clean_text df))"
  by (simp add: extract_trends_def Let_def)

lemma top_category_most_frequent:
  assumes "df \<noteq> []"
  shows "\<exists>c \<in> set (map category df). top_category df = category_name c
           \<and> (\<forall>c'. count_list (map category df) c' \<le> count_list (map category df) c)"
proof -
  let ?cats = "map category df"
  let ?f = "\<lambda>(k :: category, c :: nat). - int c"
  let ?L = "sort_key ?f (Counter ?cats)"
  from assms have "Counter ?cats \<noteq> []"
    using keys_Counter [of ?cats] by (cases df) auto
  then have "?L \<noteq> []"
    by (metis length_0_conv length_sort)
  then obtain c n rest where L: "?L = (c, n) # rest"
    by (cases ?L) auto
  then have "(c, n) \<in> set (Counter ?cats)"
    by (metis list.set_intros(1) set_sort)
  then have c: "c \<in> set ?cats" "n = count_list ?cats c"
    using Counter_count by fastforce+
  have top: "top_category df = category_name c"
    using L by (simp add: top_category_def value_counts_def)
  have "count_list ?cats c' \<le> n" for c'
  proof (cases "c' \<in> set ?cats")
    case True
    then have "(c', count_list ?cats c') \<in> set ?L"
      using map_of_Counter [of ?cats c'] by (auto dest: map_of_SomeD)
    moreover have "sorted (map ?f ?L)"
      by (rule sorted_sort_key)
    ultimately have "?f (c, n) \<le> ?f (c', count_list ?cats c')"
      unfolding L by auto
    then show ?thesis by simp
  next
    case False
    then show ?thesis by (simp add: count_list_0_iff)
  qed
  with c top show ?thesis by blast
qed

lemma any_in_sublist: "any_in ws text \<longleftrightarrow> (\<exists>w \<in> set ws. sublist w text)"
  by (simp add: any_in_def list_ex_iff contains_sublist)

lemma lower_char_idem: "lower_char (lower_char c) = lower_char c"
proof -
  have "of_char (char_of ((of_char c :: nat) + 32)) = ((of_char c + 32) mod 256 :: nat)"
    by simp
  then show ?thesis
    by (auto simp: lower_char_def has_lowercase_def in_range_def)
qed

lemma trim_decomp:
  "\<exists>pre post. s = pre @ rev (dropWhile P (rev (dropWhile P s))) @ post
      \<and> (\<forall>x \<in> set pre. P x) \<and> (\<forall>x \<in> set post. P x)"
proof -
  let ?t = "dropWhile P s"
  let ?u = "dropWhile P (rev ?t)"
  have "rev ?t = takeWhile P (rev ?t) @ ?u"
    by (rule takeWhile_dropWhile_id [symmetric])
  then have t: "?t = rev ?u @ rev (takeWhile P (rev ?t))"
    by (metis rev_append rev_rev_ident)
  have "s = takeWhile P s @ ?t"
    by (rule takeWhile_dropWhile_id [symmetric])
  with t have "s = takeWhile P s @ rev ?u @ rev (takeWhile P (rev ?t))"
    by metis
  moreover have "\<forall>x \<in> set (takeWhile P s). P x"
    by (auto dest: set_takeWhileD)
  moreover have "\<forall>x \<in> set (rev (takeWhile P (rev ?t))). P x"
    by (auto dest: set_takeWhileD)
  ultimately show ?thesis by blast
qed

lemma trim_ends:
  assumes "rev (dropWhile P (rev (dropWhile P s))) \<noteq> []"
  shows "\<not> P (hd (rev (dropWhile P (rev (dropWhile P s)))))
       \<and> \<not> P (last (rev (dropWhile P (rev (dropWhile P s)))))"
proof -
  let ?t = "dropWhile P s"
  let ?u = "dropWhile P (rev ?t)"
  from assms have u: "?u \<noteq> []" by simp
  have t: "?t \<noteq> []"
  proof
    assume "?t = []"
    then have "?u = []" by (simp only: rev.simps dropWhile.simps)
    with u show False by (rule notE)
  qed
  have "\<not> P (hd ?u)" using u by (rule hd_dropWhile)
  then have l: "\<not> P (last (rev ?u))" using u by (simp add: last_rev)
  have "rev ?t = takeWhile P (rev ?t) @ ?u"
    by (rule takeWhile_dropWhile_id [symmetric])
  then have "last (rev ?t) = last ?u" using u by (metis last_appendR)
  then have "last ?u = hd ?t" using t by (simp add: last_rev)
  moreover have "\<not> P (hd ?t)" using t by (rule hd_dropWhile)
  ultimately have "\<not> P (hd (rev ?u))" using u by (simp add: hd_rev)
  with l show ?thesis by simp
qed

lemma findall_words_concat: "concat (findall_words cur s) = cur @ filter is_word_char s"
  by (induction s arbitrary: cur) auto

lemma findall_words_tokens:
  assumes "\<forall>x \<in> set cur. is_word_char x" and "t \<in> set (findall_words cur s)"
  shows "t \<noteq> [] \<and> (\<forall>x \<in> set t. is_word_char x)"
  using assms
proof (induction s arbitrary: cur)
  case Nil
  then show ?case by (auto split: if_splits)
next
  case (Cons c s)
  show ?case
  proof (cases "is_word_char c")
    case True
    with Cons.prems have "t \<in> set (findall_words (cur @ [c]) s)" by simp
    moreover from True Cons.prems(1) have "\<forall>x \<in> set (cur @ [c]). is_word_char x" by simp
    ultimately show ?thesis by (rule Cons.IH [rotated])
  next
    case False
    with Cons.prems have "t = cur \<and> cur \<noteq> [] \<or> t \<in> set (findall_words [] s)"
      by (auto split: if_splits)
    then show ?thesis
    proof
      assume "t = cur \<and> cur \<noteq> []"
      with Cons.prems(1) show ?thesis by simp
    next
      assume "t \<in> set (findall_words [] s)"
      then show ?thesis using Cons.IH [of "[]"] by simp
    qed
  qed
qed

lemma tokenize_concat: "concat (tokenize text) = filter is_word_char (lower text)"
  by (simp add: tokenize_def findall_words_concat)

lemma tokenize_tokens:
  "t \<in> set (tokenize text) \<Longrightarrow> t \<noteq> [] \<and> (\<forall>x \<in> set t. is_word_char x)"
  using findall_words_tokens [of "[]" t "lower text"] by (simp add: tokenize_def)

lemma tokenize_lower:
  assumes "t \<in> set (tokenize text)"
  shows "lower t = t"
proof -
  have "set t \<subseteq> set (concat (tokenize text))"
    using assms by auto
  then have "set t \<subseteq> lower_char ` set text"
    by (auto simp: tokenize_concat lower_def)
  then have "\<forall>x \<in> set t. lower_char x = x"
    by (auto simp: lower_char_idem)
  then show ?thesis
    by (simp add: lower_def map_idI)
qed

lemma capitalize_token:
  assumes "t \<in> set (tokenize text)"
  shows "capitalize t = title_char (hd t) @ code_points (tl t)"
proof -
  from assms have "t \<noteq> []" using tokenize_tokens by blast
  then obtain h r where t: "t = h # r" by (cases t) auto
  from assms have "lower t = t" by (rule tokenize_lower)
  then have "lower r = r" by (simp add: t lower_def)
  then show ?thesis by (simp add: t capitalize_def)
qed

lemma of_char_digit_char: "d < 10 \<Longrightarrow> (of_char (digit_char d) :: nat) = 48 + d"
  by (simp add: digit_char_def)

lemma decimal_value_snoc:
  "decimal_value (s @ [d]) = 10 * decimal_value s + ((of_char d :: nat) - 48)"
  by (simp add: decimal_value_def)

lemma decimal_value_str_nat: "decimal_value (str_nat n) = n"
proof (induction n rule: str_nat.induct)
  case (1 n)
  show ?case
  proof (cases "n < 10")
    case True
    then have "str_nat n = [digit_char n]" by (subst str_nat.simps) simp
    with True show ?thesis
      by (simp add: decimal_value_def of_char_digit_char)
  next
    case False
    then have s: "str_nat n = str_nat (n div 10) @ [digit_char (n mod 10)]"
      by (subst str_nat.simps) simp
    from False have "decimal_value (str_nat (n div 10)) = n div 10"
      by (rule "1.IH")
    then show ?thesis
      by (simp only: s decimal_value_snoc) (simp add: of_char_digit_char)
  qed
qed

subsection \<open>The claims\<close>

text \<open>
  C1: for every batch that \<open>process_complaints\<close> accepts, the counts by category, by
  sentiment and by urgency each sum to \<open>total_complaints\<close>, which is the number of
  records left after \<open>drop_duplicates\<close>.
\<close>

theorem process_complaints_counts_sum:
  assumes "process_complaints env rnd (Some rs) = Some d"
  shows "sum_list (map snd (complaint_volume_by_category d)) = total_complaints d
       \<and> sum_list (map snd (sentiment_overview d)) = total_complaints d
       \<and> sum_list (map snd (urgency_distribution d)) = total_complaints d
       \<and> total_complaints d = length (drop_duplicates rs)"
proof -
  from assms have ok: "\<not> (rs = [] \<or> \<not> list_ex has_raw_text rs)"
    by (auto simp: process_complaints_def process_complaints_try_Some split: if_splits)
  with assms show ?thesis
    by (auto simp: process_complaints_def process_complaints_try_Some Let_def sum_value_counts)
qed

theorem process_complaints_counts_sum_witness:
  "\<exists>d. process_complaints no_collaborators (constant_draws Mess Negative Low) (Some example_batch)
         = Some d
       \<and> sum_list (map snd (complaint_volume_by_category d)) = 2
       \<and> sum_list (map snd (sentiment_overview d)) = 2
       \<and> sum_list (map snd (urgency_distribution d)) = 2
       \<and> total_complaints d = 2"
proof -
  have "list_ex has_raw_text example_batch"
    by code_simp
  then have "process_complaints no_collaborators (constant_draws Mess Negative Low) (Some example_batch)
          \<noteq> None"
    by (simp add: process_complaints_None_iff)
  then obtain d where
    d: "process_complaints no_collaborators (constant_draws Mess Negative Low) (Some example_batch)
          = Some d"
    by blast
  have n: "length (drop_duplicates example_batch) = 2"
    by code_simp
  show ?thesis
    using process_complaints_counts_sum [OF d] d n by simp
qed

text \<open>
  C2, as the claim states it: a batch whose only record has the empty text would fail.
  The code accepts it: there is no test for blank text, and the summary counts one
  complaint.
\<close>

theorem process_complaints_blank_text_counterexample:
  "clean_text_of (Str []) = []
   \<and> map_option total_complaints
        (process_complaints no_collaborators (constant_draws Mess Negative Low)
           (Some [[(''raw_text'', Str [])]])) = Some 1"
  by code_simp

text \<open>
  C2, amended: \<open>process_complaints\<close> fails, by returning \<open>None\<close>, exactly when
  \<open>data\<close> is not given, is the empty list, or has no record with the key
  \<open>raw_text\<close>. Records whose text normalizes to the empty string are processed like
  any other.
\<close>

theorem process_complaints_fails_iff:
  "process_complaints env rnd data = None \<longleftrightarrow>
     data = None \<or> data = Some [] \<or> (\<exists>rs. data = Some rs \<and> \<not> list_ex has_raw_text rs)"
proof (cases data)
  case None
  then show ?thesis by (simp add: process_complaints_def process_complaints_try_def)
next
  case (Some rs)
  then show ?thesis
    by (auto simp: process_complaints_None_iff)
qed

theorem process_complaints_fails_iff_witness:
  "\<not> list_ex has_raw_text [[(''note'', Str ''no text column'')]]
   \<and> process_complaints no_collaborators (constant_draws Mess Negative Low)
        (Some [[(''note'', Str ''no text column'')]]) = None
   \<and> list_ex has_raw_text [[(''raw_text'', NA)]]
   \<and> process_complaints no_collaborators (constant_draws Mess Negative Low)
        (Some [[(''raw_text'', NA)]]) \<noteq> None"
proof -
  have a: "\<not> list_ex has_raw_text [[(''note'', Str ''no text column'')]]"
    by code_simp
  have b: "list_ex has_raw_text [[(''raw_text'', NA)]]"
    by code_simp
  show ?thesis
    using a b
      process_complaints_fails_iff [of no_collaborators "constant_draws Mess Negative Low"
        "Some [[(''note'', Str ''no text column'')]]"]
      process_complaints_fails_iff [of no_collaborators "constant_draws Mess Negative Low"
        "Some [[(''raw_text'', NA)]]"]
    by simp
qed

text \<open>
  C4, as the claim states it: a text without any keyword would be classified as Hostel.
  The code draws the category at random, and the draw can be Academics.
\<close>

theorem classify_text_default_counterexample:
  "\<not> any_in hostel_words (lower ''lights broken'')
   \<and> \<not> any_in mess_words (lower ''lights broken'')
   \<and> \<not> any_in academics_words (lower ''lights broken'')
   \<and> \<not> any_in administration_words (lower ''lights broken'')
   \<and> classify_text Academics ''lights broken'' \<noteq> Hostel"
  by code_simp

text \<open>
  C4, amended: for a text that contains none of the keywords, \<open>classify_text\<close>
  returns the outcome of the random choice among the four categories, whichever it
  is.
\<close>

theorem classify_text_unmatched_is_draw:
  assumes "\<not> any_in hostel_words (lower text)"
    and "\<not> any_in mess_words (lower text)"
    and "\<not> any_in academics_words (lower text)"
    and "\<not> any_in administration_words (lower text)"
  shows "classify_text choice text = choice"
  using assms by (simp add: classify_text_def)

theorem classify_text_unmatched_is_draw_witness:
  "\<not> any_in hostel_words (lower ''lights broken'')
   \<and> \<not> any_in mess_words (lower ''lights broken'')
   \<and> \<not> any_in academics_words (lower ''lights broken'')
   \<and> \<not> any_in administration_words (lower ''lights broken'')
   \<and> classify_text Administration ''lights broken'' = Administration"
proof -
  have h: "\<not> any_in hostel_words (lower ''lights broken'')" by code_simp
  have m: "\<not> any_in mess_words (lower ''lights broken'')" by code_simp
  have a: "\<not> any_in academics_words (lower ''lights broken'')" by code_simp
  have d: "\<not> any_in administration_words (lower ''lights broken'')" by code_simp
  show ?thesis
    using h m a d classify_text_unmatched_is_draw [OF h m a d, of Administration] by simp
qed

text \<open>
  C7, as the claim states it: without a sentiment pipeline, a non-empty text without
  positive marker would be Negative, and a text that contains \<open>urgent\<close> would have
  urgency High. The code draws both at random: here Positive and Low.
\<close>

theorem analyze_sentiment_rule_counterexample:
  "contains ''urgent'' ''urgent: the fan is broken''
   \<and> \<not> any_in [''thank'', ''good'', ''great'', ''resolved''] ''urgent: the fan is broken''
   \<and> map (\<lambda>r. (sentiment r, urgency r))
        (analyze_sentiment no_collaborators (constant_draws Mess Positive Low)
           [\<lparr>raw = [(''raw_text'', Str ''Urgent: the fan is broken'')],
             clean_text = ''urgent: the fan is broken'', category = Hostel\<rparr>])
       = [(code_points ''Positive'', Low)]"
  by code_simp

text \<open>
  C7, amended: without a sentiment pipeline, the sentiment of the row at position
  \<open>i\<close> is the outcome of the \<open>i\<close>-th random draw among Negative, Neutral and
  Positive, and its urgency is the outcome of the \<open>i\<close>-th random draw among High,
  Medium and Low; neither depends on \<open>clean_text\<close>.
\<close>

theorem analyze_sentiment_fallback_is_draw:
  assumes "sentiment_pipeline env = None"
  shows "map sentiment (analyze_sentiment env rnd df)
           = map (\<lambda>i. sentiment_name (sentiment_choice rnd i)) [0..<length df]
       \<and> map urgency (analyze_sentiment env rnd df) = map (urgency_choice rnd) [0..<length df]"
  using assms by (simp add: map_sentiment_analyze map_urgency_analyze)

theorem analyze_sentiment_fallback_is_draw_witness:
  "sentiment_pipeline no_collaborators = None
   \<and> map sentiment
        (analyze_sentiment no_collaborators (constant_draws Mess Neutral Medium)
           [\<lparr>raw = [(''raw_text'', Str ''Thank you, resolved'')],
             clean_text = ''thank you, resolved'', category = Mess\<rparr>])
       = [code_points ''Neutral'']
   \<and> map urgency
        (analyze_sentiment no_collaborators (constant_draws Mess Neutral Medium)
           [\<lparr>raw = [(''raw_text'', Str ''Thank you, resolved'')],
             clean_text = ''thank you, resolved'', category = Mess\<rparr>])
       = [Medium]"
proof -
  have h: "sentiment_pipeline no_collaborators = None"
    by (simp add: no_collaborators_def)
  show ?thesis
    using h analyze_sentiment_fallback_is_draw [OF h, of "constant_draws Mess Neutral Medium"
        "[\<lparr>raw = [(''raw_text'', Str ''Thank you, resolved'')],
             clean_text = ''thank you, resolved'', category = Mess\<rparr>]"]
    by (simp add: constant_draws_def sentiment_name_def)
qed

text \<open>
  C8, as the claim states it: without external collaborators, two runs on the same
  batch would return the same summary. Two runs differ as soon as their random draws
  differ.
\<close>

theorem process_complaints_deterministic_counterexample:
  "process_complaints no_collaborators (constant_draws Mess Negative Low) (Some example_batch)
     \<noteq> process_complaints no_collaborators (constant_draws Mess Positive High) (Some example_batch)"
proof -
  have ne: "code_points ''Negative'' \<noteq> code_points ''Positive''"
    by code_simp
  have r: "list_ex has_raw_text example_batch"
    by code_simp
  have p: "sentiment_pipeline no_collaborators = None"
    by (simp add: no_collaborators_def)
  have n: "length (drop_duplicates example_batch) = 2"
    by code_simp
  have a: "value_counts (map (\<lambda>i. sentiment_name
             (sentiment_choice (constant_draws Mess Negative Low) i)) [0..<2])
           = [(code_points ''Negative'', 2)]"
    by code_simp
  have b: "value_counts (map (\<lambda>i. sentiment_name
             (sentiment_choice (constant_draws Mess Positive High) i)) [0..<2])
           = [(code_points ''Positive'', 2)]"
    by code_simp
  have "map_option sentiment_overview
          (process_complaints no_collaborators (constant_draws Mess Negative Low)
             (Some example_batch)) = Some [(code_points ''Negative'', 2)]"
    using sentiment_overview_fallback [OF r p, of "constant_draws Mess Negative Low"]
    by (simp only: n a)
  moreover have "map_option sentiment_overview
          (process_complaints no_collaborators (constant_draws Mess Positive High)
             (Some example_batch)) = Some [(code_points ''Positive'', 2)]"
    using sentiment_overview_fallback [OF r p, of "constant_draws Mess Positive High"]
    by (simp only: n b)
  ultimately show ?thesis
    using ne by auto
qed

text \<open>
  C8, amended: two runs on the same input, whatever their random draws, agree on
  failure or success, on \<open>total_complaints\<close>, on \<open>top_recurring_issues\<close> and on
  the cleaned text of every processed record. The categories of texts without keyword,
  the sentiments of the fallback and the urgencies are random draws, and with them the
  three count tables and the fallback summary.
\<close>

theorem process_complaints_deterministic_part:
  "map_option total_complaints (process_complaints env rnd1 data)
     = map_option total_complaints (process_complaints env rnd2 data)
   \<and> map_option top_recurring_issues (process_complaints env rnd1 data)
     = map_option top_recurring_issues (process_complaints env rnd2 data)
   \<and> map_option (\<lambda>d. map clean_text (processed_complaints d)) (process_complaints env rnd1 data)
     = map_option (\<lambda>d. map clean_text (processed_complaints d)) (process_complaints env rnd2 data)"
proof (cases data)
  case None
  then show ?thesis by (simp add: process_complaints_def process_complaints_try_def)
next
  case (Some rs)
  then show ?thesis
    by (simp add: process_complaints_def process_complaints_try_Some Let_def extract_trends_def)
qed

text \<open>
  C9: \<open>process_complaints\<close> never raises: it returns \<open>None\<close> when neither
  \<open>data\<close> nor \<open>file_path\<close> is given, when \<open>data\<close> is empty and when
  \<open>clean_data\<close> raises; in general it returns \<open>None\<close> exactly when an exception
  leaves the \<open>try\<close> block, and otherwise the complete dashboard that the block
  computed.
\<close>

theorem process_complaints_never_raises:
  "process_complaints env rnd None = None
   \<and> process_complaints env rnd (Some []) = None
   \<and> (clean_data (DataFrame rs) = Inl e \<longrightarrow> process_complaints env rnd (Some rs) = None)
   \<and> (process_complaints env rnd data = None
        \<longleftrightarrow> (\<exists>e. process_complaints_try env rnd data = Inl e))
   \<and> (\<forall>d. process_complaints env rnd data = Some d
        \<longleftrightarrow> process_complaints_try env rnd data = Inr d)"
proof -
  have "process_complaints env rnd (Some rs) = None" if "clean_data (DataFrame rs) = Inl e"
    using that by (cases rs) (simp_all add: process_complaints_def process_complaints_try_def)
  then show ?thesis
    by (auto simp: process_complaints_def process_complaints_try_def split: sum.splits)
qed

theorem process_complaints_never_raises_witness:
  "clean_data (DataFrame [[(''note'', Str ''no text column'')]]) = Inl KeyError
   \<and> process_complaints no_collaborators (constant_draws Mess Negative Low)
        (Some [[(''note'', Str ''no text column'')]]) = None"
proof -
  have h: "clean_data (DataFrame [[(''note'', Str ''no text column'')]]) = Inl KeyError"
    by code_simp
  show ?thesis
    using h process_complaints_never_raises
      [of no_collaborators "constant_draws Mess Negative Low"
          "[[(''note'', Str ''no text column'')]]" KeyError None]
    by simp
qed

end
